theory Spec2Isabelle
  imports Main "HOL-Library.Word" "HOL-Library.Signed_Division"
begin

section \<open>The generated C# code of convert_descbodypart.py\<close>

text \<open>
  The script \<^verbatim>\<open>scripts/convert_descbodypart.py\<close> rewrites \<^verbatim>\<open>DescBodyPart.cs\<close>: it
  inserts the C# method \<^verbatim>\<open>InitializeDescBodyParts\<close>, which turns every weighted list
  into a cumulative-weight array, and the C# method \<^verbatim>\<open>GetRandom\<close>, which draws from
  such an array by binary search. The definitions below embed that inserted C# text
  (the replacement string of the script, lines 26 to 60).

  C# \<^verbatim>\<open>int\<close> is a 32-bit two's complement integer. The inserted code has no
  \<^verbatim>\<open>checked\<close> block, so \<^verbatim>\<open>+=\<close> on weights wraps around (the language default):
  weights and cumulative weights are \<^typ>\<open>32 word\<close>, compared through \<^const>\<open>sint\<close>.
\<close>

type_synonym int32 = "32 word"

text \<open>The tuple \<^verbatim>\<open>(int CumulativeWeight, DescBodyPart Value)\<close>.\<close>

record 'v entry =
  CumulativeWeight :: int32
  Value :: 'v

text \<open>The tuple \<^verbatim>\<open>(int MaxWeight, (int CumulativeWeight, DescBodyPart Value)[] Items)\<close>.\<close>

record 'v data =
  MaxWeight :: int32
  Items :: "'v entry list"

text \<open>
  \<^verbatim>\<open>BucketList<DescBodyPart>\<close> is declared elsewhere in the repository; the code only
  enumerates it, as pairs \<^verbatim>\<open>(item, probability)\<close> with an \<^verbatim>\<open>int\<close> probability.
\<close>

type_synonym 'v BucketList = "('v \<times> int32) list"

text \<open>
  The failures: an array read out of range (\<^verbatim>\<open>IndexOutOfRangeException\<close>), the read
  of an absent key of the dictionary, and whatever the random source throws, carried
  as it is.
\<close>

datatype 'e error = IndexOutOfRange | UnknownKey | RandomFailure 'e

subsection \<open>InitializeDescBodyParts\<close>

text \<open>
  The inner \<^verbatim>\<open>foreach (var (item, probability) in kvp.Value)\<close> with its two
  variables \<^verbatim>\<open>cumulative\<close> and \<^verbatim>\<open>list\<close>:
  \<^verbatim>\<open>cumulative += probability; list.Add((cumulative, item));\<close>
\<close>

fun accumulate :: "'v BucketList \<Rightarrow> int32 \<Rightarrow> 'v entry list \<Rightarrow> int32 \<times> 'v entry list" where
  "accumulate [] cumulative list = (cumulative, list)"
| "accumulate ((item, probability) # rest) cumulative list =
     (let cumulative' = cumulative + probability
      in accumulate rest cumulative'
           (list @ [\<lparr>CumulativeWeight = cumulative', Value = item\<rparr>]))"

text \<open>
  The body of the outer \<^verbatim>\<open>foreach (var kvp in tempDict)\<close>: start from
  \<^verbatim>\<open>cumulative = 0\<close> and an empty list, run the inner loop, and build
  \<^verbatim>\<open>(cumulative, list.ToArray())\<close>.
\<close>

definition convert_BucketList :: "'v BucketList \<Rightarrow> 'v data" where
  "convert_BucketList bucket =
     (case accumulate bucket 0 [] of
        (cumulative, list) \<Rightarrow> \<lparr>MaxWeight = cumulative, Items = list\<rparr>)"

text \<open>
  The outer loop, \<^verbatim>\<open>result[kvp.Key] = (cumulative, list.ToArray())\<close>, over the
  entries of \<^verbatim>\<open>tempDict\<close> in enumeration order.
\<close>

fun convert_all ::
  "(string \<times> 'v BucketList) list \<Rightarrow> (string \<rightharpoonup> 'v data) \<Rightarrow> (string \<rightharpoonup> 'v data)" where
  "convert_all [] result = result"
| "convert_all ((key, bucket) # rest) result =
     convert_all rest (result(key \<mapsto> convert_BucketList bucket))"

definition InitializeDescBodyParts ::
  "(string \<times> 'v BucketList) list \<Rightarrow> (string \<rightharpoonup> 'v data)" where
  "InitializeDescBodyParts tempDict = convert_all tempDict Map.empty"

text \<open>
  Modelled from the spec: the registry operation \<^verbatim>\<open>get(key)\<close>. The script builds
  the dictionary \<^verbatim>\<open>d\<close> and contains no read of it; the spec says that the lookup
  "fails with \<^verbatim>\<open>UnknownKeyError\<close> if the key is absent; otherwise returns the (shared,
  immutable) sampler".
\<close>

definition registry_get :: "(string \<rightharpoonup> 'v data) \<Rightarrow> string \<Rightarrow> 'e error + 'v data" where
  "registry_get d key = (case d key of None \<Rightarrow> Inl UnknownKey | Some sampler \<Rightarrow> Inr sampler)"

subsection \<open>GetRandom\<close>

text \<open>A C# array read \<^verbatim>\<open>a[i]\<close>: it throws when the index is outside the array.\<close>

definition array_get :: "'a list \<Rightarrow> int \<Rightarrow> 'e error + 'a" where
  "array_get a i =
     (if 0 \<le> i \<and> i < int (length a) then Inr (a ! nat i) else Inl IndexOutOfRange)"

text \<open>
  One run of the body of \<^verbatim>\<open>while (left < right)\<close>. The indices \<^verbatim>\<open>left\<close>,
  \<^verbatim>\<open>right\<close> and \<^verbatim>\<open>mid\<close> are C# \<^verbatim>\<open>int\<close>s; they stay between \<open>-1\<close> and the
  array length, which is below \<open>2^31\<close>, so they are modelled as \<^typ>\<open>int\<close>. C#'s
  \<^verbatim>\<open>/\<close> truncates towards zero: \<open>sdiv\<close>.
\<close>

definition search_step ::
  "'v entry list \<Rightarrow> int32 \<Rightarrow> int \<Rightarrow> int \<Rightarrow> 'e error + (int \<times> int)" where
  "search_step items target left right =
     (let mid = left + (right - left) sdiv 2
      in case array_get items mid of
           Inl e \<Rightarrow> Inl e
         | Inr it \<Rightarrow>
             if sint (CumulativeWeight it) \<le> sint target
             then Inr (mid + 1, right)
             else Inr (left, mid))"

text \<open>The loop; it returns \<^verbatim>\<open>left\<close> and \<^verbatim>\<open>right\<close> as they are at the exit.\<close>

function search_loop ::
  "'v entry list \<Rightarrow> int32 \<Rightarrow> int \<Rightarrow> int \<Rightarrow> 'e error + (int \<times> int)" where
  "search_loop items target left right =
     (if left < right
      then case search_step items target left right of
             Inl e \<Rightarrow> Inl e
           | Inr s \<Rightarrow> search_loop items target (fst s) (snd s)
      else Inr (left, right))"
  by pat_completeness auto
termination
proof (relation "measure (\<lambda>(items, target, left, right). nat (right - left))")
  show "wf (measure (\<lambda>(items :: 'v entry list, target :: int32, left, right). nat (right - left)))"
    by simp
next
  fix items :: "'v entry list" and target :: int32 and left right :: int
    and s :: "int \<times> int"
  assume lt: "left < right"
    and st: "(search_step items target left right :: 'e error + (int \<times> int)) = Inr s"
  have "(right - left) sdiv 2 = (right - left) div 2"
    using lt by (simp add: signed_divide_int_def)
  then have "snd s - fst s < right - left"
    using lt st unfolding search_step_def Let_def
    by (auto split: sum.splits if_splits)
  with lt show "((items, target, fst s, snd s), (items, target, left, right))
      \<in> measure (\<lambda>(items, target, left, right). nat (right - left))"
    by (simp add: case_prod_unfold)
qed

declare search_loop.simps [simp del]

text \<open>
  \<^verbatim>\<open>GetRandom\<close>. The random source \<^verbatim>\<open>r\<close> is used once, for
  \<^verbatim>\<open>r.Next(data.MaxWeight)\<close>; it is a parameter, the outcome of that call as a
  function of the bound: a target, or the exception of the source.
\<close>

definition GetRandom :: "'v data \<Rightarrow> (int32 \<Rightarrow> 'e + int32) \<Rightarrow> 'e error + 'v" where
  "GetRandom data r =
     (case r (MaxWeight data) of
        Inl e \<Rightarrow> Inl (RandomFailure e)
      | Inr target \<Rightarrow>
          (case search_loop (Items data) target 0 (int (length (Items data)) - 1) of
             Inl e \<Rightarrow> Inl e
           | Inr (left, right) \<Rightarrow>
               (case array_get (Items data) left of
                  Inl e \<Rightarrow> Inl e
                | Inr it \<Rightarrow> Inr (Value it))))"

section \<open>The binary search\<close>

text \<open>Each run of the body narrows the interval and keeps it inside the old one.\<close>

lemma search_step_width:
  assumes "left < right" "search_step items target left right = Inr (l', r')"
  shows "l' \<le> r' \<and> r' - l' < right - left \<and> left \<le> l' \<and> r' \<le> right"
proof -
  have "(right - left) sdiv 2 = (right - left) div 2"
    using assms(1) by (simp add: signed_divide_int_def)
  then show ?thesis
    using assms unfolding search_step_def Let_def
    by (auto split: sum.splits if_splits)
qed

text \<open>Inside the array, the body of the loop reads the array without failing.\<close>

lemma search_step_in_range:
  assumes "0 \<le> left" "left < right" "right < int (length items)"
  shows "search_step items target left right =
     (if sint (CumulativeWeight (items ! nat (left + (right - left) div 2))) \<le> sint target
      then Inr (left + (right - left) div 2 + 1, right)
      else Inr (left, left + (right - left) div 2))"
proof -
  have "(right - left) sdiv 2 = (right - left) div 2"
    using assms(2) by (simp add: signed_divide_int_def)
  moreover have "0 \<le> left + (right - left) div 2" "left + (right - left) div 2 < int (length items)"
    using assms by auto
  ultimately show ?thesis
    by (simp add: search_step_def array_get_def)
qed

lemma search_loop_exits:
  assumes "0 \<le> left" "left \<le> right" "right < int (length items)"
  shows "\<exists>k. left \<le> k \<and> k \<le> right \<and>
    search_loop items target left right = (Inr (k, k) :: 'e error + int \<times> int)"
  using assms
proof (induction "nat (right - left)" arbitrary: left right rule: less_induct)
  case less
  show ?case
  proof (cases "left < right")
    case False
    with less.prems have "left = right" by simp
    then show ?thesis by (simp add: search_loop.simps)
  next
    case True
    let ?mid = "left + (right - left) div 2"
    have mid: "left \<le> ?mid" "?mid < right" using True by auto
    show ?thesis
    proof (cases "sint (CumulativeWeight (items ! nat ?mid)) \<le> sint target")
      case le: True
      have st: "search_step items target left right = (Inr (?mid + 1, right) :: 'e error + int \<times> int)"
        using less.prems True le by (simp add: search_step_in_range)
      have "\<exists>k. ?mid + 1 \<le> k \<and> k \<le> right \<and>
          search_loop items target (?mid + 1) right = (Inr (k, k) :: 'e error + int \<times> int)"
        using less.prems mid by (intro less.hyps) auto
      then show ?thesis
        using mid True st by (subst search_loop.simps) auto
    next
      case gt: False
      have st: "search_step items target left right = (Inr (left, ?mid) :: 'e error + int \<times> int)"
        using less.prems True gt by (simp add: search_step_in_range)
      have "\<exists>k. left \<le> k \<and> k \<le> ?mid \<and>
          search_loop items target left ?mid = (Inr (k, k) :: 'e error + int \<times> int)"
        using less.prems mid by (intro less.hyps) auto
      then show ?thesis
        using mid True st by (subst search_loop.simps) auto
    qed
  qed
qed

lemma search_loop_leftmost:
  assumes mono: "\<And>i j. i \<le> j \<Longrightarrow> j < length items \<Longrightarrow>
      sint (CumulativeWeight (items ! i)) \<le> sint (CumulativeWeight (items ! j))"
    and gt: "sint target < sint (CumulativeWeight (items ! k))"
    and le: "\<And>j. j < k \<Longrightarrow> sint (CumulativeWeight (items ! j)) \<le> sint target"
    and bounds: "0 \<le> left" "left \<le> int k" "int k \<le> right" "right < int (length items)"
  shows "search_loop items target left right = (Inr (int k, int k) :: 'e error + int \<times> int)"
  using bounds
proof (induction "nat (right - left)" arbitrary: left right rule: less_induct)
  case less
  show ?case
  proof (cases "left < right")
    case False
    with less.prems have "left = int k" "right = int k" by simp_all
    then show ?thesis by (simp add: search_loop.simps)
  next
    case True
    let ?mid = "left + (right - left) div 2"
    have mid: "left \<le> ?mid" "?mid < right" using True by auto
    have mid0: "0 \<le> ?mid" "nat ?mid < length items" using mid less.prems by auto
    show ?thesis
    proof (cases "sint (CumulativeWeight (items ! nat ?mid)) \<le> sint target")
      case cle: True
      have st: "search_step items target left right = (Inr (?mid + 1, right) :: 'e error + int \<times> int)"
        using less.prems True cle by (simp add: search_step_in_range)
      have "\<not> k \<le> nat ?mid"
      proof
        assume "k \<le> nat ?mid"
        from mono [OF this mid0(2)] cle gt show False by simp
      qed
      then have "?mid + 1 \<le> int k" by simp
      then have "search_loop items target (?mid + 1) right = (Inr (int k, int k) :: 'e error + int \<times> int)"
        using less.prems mid by (intro less.hyps) auto
      then show ?thesis
        using True st by (subst search_loop.simps) simp
    next
      case cgt: False
      have st: "search_step items target left right = (Inr (left, ?mid) :: 'e error + int \<times> int)"
        using less.prems True cgt by (simp add: search_step_in_range)
      have "\<not> nat ?mid < k"
        using le [of "nat ?mid"] cgt by auto
      then have "int k \<le> ?mid" using mid0 by simp
      then have "search_loop items target left ?mid = (Inr (int k, int k) :: 'e error + int \<times> int)"
        using less.prems mid by (intro less.hyps) auto
      then show ?thesis
        using True st by (subst search_loop.simps) simp
    qed
  qed
qed

text \<open>On a non-empty array the draw ends at an index of the array and returns its value.\<close>

lemma GetRandom_nonempty:
  assumes "items \<noteq> []" "Items data = items" "r (MaxWeight data) = Inr target"
  shows "\<exists>k < length items.
     search_loop items target 0 (int (length items) - 1) = (Inr (int k, int k) :: 'e error + int \<times> int)
     \<and> GetRandom data r = (Inr (Value (items ! k)) :: 'e error + 'v)"
proof -
  have "\<exists>k. 0 \<le> k \<and> k \<le> int (length items) - 1 \<and>
     search_loop items target 0 (int (length items) - 1) = (Inr (k, k) :: 'e error + int \<times> int)"
    using assms(1) by (intro search_loop_exits) auto
  then obtain k where k: "0 \<le> k" "k \<le> int (length items) - 1"
    and sl: "search_loop items target 0 (int (length items) - 1) = (Inr (k, k) :: 'e error + int \<times> int)"
    by blast
  have "nat k < length items" "int (nat k) = k" using k by auto
  moreover have "GetRandom data r = (Inr (Value (items ! nat k)) :: 'e error + 'v)"
    using k sl assms(2,3) by (simp add: GetRandom_def array_get_def)
  ultimately show ?thesis using sl by metis
qed

section \<open>The cumulative array\<close>

text \<open>What the two loops of \<^verbatim>\<open>InitializeDescBodyParts\<close> compute, in closed form.\<close>

lemma accumulate_eq:
  "accumulate bucket c l =
     (c + sum_list (map snd bucket),
      l @ map (\<lambda>i. \<lparr>CumulativeWeight = c + sum_list (map snd (take (Suc i) bucket)),
                    Value = fst (bucket ! i)\<rparr>) [0..<length bucket])"
proof (induction bucket arbitrary: c l)
  case Nil
  show ?case by simp
next
  case (Cons p rest)
  obtain item probability where p: "p = (item, probability)" by (cases p)
  show ?case
    unfolding p
    by (simp add: Cons.IH Let_def map_upt_Suc add.assoc del: upt_Suc)
qed

lemma MaxWeight_convert: "MaxWeight (convert_BucketList bucket) = sum_list (map snd bucket)"
  by (simp add: convert_BucketList_def accumulate_eq)

lemma Items_convert:
  "Items (convert_BucketList bucket) =
     map (\<lambda>i. \<lparr>CumulativeWeight = sum_list (map snd (take (Suc i) bucket)),
               Value = fst (bucket ! i)\<rparr>) [0..<length bucket]"
  by (simp add: convert_BucketList_def accumulate_eq)

lemma length_Items_convert: "length (Items (convert_BucketList bucket)) = length bucket"
  by (simp add: Items_convert)

lemma nth_Items_convert:
  "i < length bucket \<Longrightarrow> Items (convert_BucketList bucket) ! i =
     \<lparr>CumulativeWeight = sum_list (map snd (take (Suc i) bucket)), Value = fst (bucket ! i)\<rparr>"
  by (simp add: Items_convert)

lemma Values_convert: "map Value (Items (convert_BucketList bucket)) = map fst bucket"
proof -
  have "map Value (Items (convert_BucketList bucket))
      = map fst (map ((!) bucket) [0..<length bucket])"
    by (simp add: Items_convert o_def)
  then show ?thesis by (simp only: map_nth)
qed

lemma sum_list_word_of_int: "(sum_list ws :: int32) = word_of_int (sum_list (map sint ws))"
  by (induction ws) simp_all

lemma sint_sum_list_wrap:
  "sint (sum_list ws :: int32) = (sum_list (map sint ws) + 2 ^ 31) mod 2 ^ 32 - 2 ^ 31"
proof -
  have "sint (sum_list ws :: int32) = signed_take_bit 31 (sum_list (map sint ws))"
    by (subst sum_list_word_of_int) (simp add: sint_sbintrunc')
  then show ?thesis
    by (simp add: signed_take_bit_eq_take_bit_shift take_bit_eq_mod)
qed

lemma sint_sum_list_exact:
  assumes "- (2 ^ 31) \<le> sum_list (map sint ws)" "sum_list (map sint ws) < 2 ^ 31"
  shows "sint (sum_list ws :: int32) = sum_list (map sint ws)"
  using assms by (simp add: sint_sum_list_wrap)

lemma sum_list_take_le:
  assumes "\<forall>w \<in> set ws. 0 \<le> (f w :: int)"
  shows "sum_list (map f (take n ws)) \<le> sum_list (map f ws)"
proof -
  have "sum_list (map f ws) = sum_list (map f (take n ws)) + sum_list (map f (drop n ws))"
    by (metis append_take_drop_id map_append sum_list_append)
  moreover have "0 \<le> sum_list (map f (drop n ws))"
    using assms by (intro sum_list_nonneg) (auto dest: in_set_dropD)
  ultimately show ?thesis by simp
qed

text \<open>
  When all weights are positive and their sum fits a C# \<^verbatim>\<open>int\<close>, no addition wraps:
  the cumulative weights are the exact prefix sums.
\<close>

lemma sum_list_pos_int:
  assumes "xs \<noteq> []" "\<forall>x \<in> set xs. 0 < (f x :: int)"
  shows "0 < sum_list (map f xs)"
proof (cases xs)
  case Nil
  with assms(1) show ?thesis by simp
next
  case (Cons x rest)
  have "0 \<le> sum_list (map f rest)"
    using assms(2) Cons by (intro sum_list_nonneg) (auto dest: less_imp_le)
  moreover have "0 < f x" using assms(2) Cons by simp
  ultimately show ?thesis using Cons by simp
qed

lemma prefix_sum_strict:
  assumes pos: "\<forall>p \<in> set bucket. 0 < (f p :: int)" and jk: "j < k" "k \<le> length bucket"
  shows "sum_list (map f (take j bucket)) < sum_list (map f (take k bucket))"
proof -
  have "take k bucket = take j bucket @ take (k - j) (drop j bucket)"
    using jk by (metis le_add_diff_inverse less_imp_le take_add)
  moreover have "0 < sum_list (map f (take (k - j) (drop j bucket)))"
    using pos jk by (intro sum_list_pos_int) (auto dest: in_set_takeD in_set_dropD)
  ultimately show ?thesis by simp
qed

lemma sint_CumulativeWeight_convert:
  assumes pos: "\<forall>p \<in> set bucket. 0 < sint (snd p)"
    and bound: "sum_list (map (sint \<circ> snd) bucket) < 2 ^ 31"
    and i: "i < length bucket"
  shows "sint (CumulativeWeight (Items (convert_BucketList bucket) ! i))
       = sum_list (map (sint \<circ> snd) (take (Suc i) bucket))"
proof -
  let ?ws = "map snd (take (Suc i) bucket)"
  have eq: "map sint ?ws = map (sint \<circ> snd) (take (Suc i) bucket)" by simp
  have "sum_list (map (sint \<circ> snd) (take (Suc i) bucket)) \<le> sum_list (map (sint \<circ> snd) bucket)"
    using pos by (intro sum_list_take_le) (auto dest: less_imp_le)
  then have hi: "sum_list (map sint ?ws) < 2 ^ 31" using bound unfolding eq by simp
  have "0 \<le> sum_list (map sint ?ws)"
    using pos by (intro sum_list_nonneg) (auto dest!: in_set_takeD dest: less_imp_le)
  then have lo: "- (2 ^ 31) \<le> sum_list (map sint ?ws)" by simp
  have "sint (sum_list ?ws) = sum_list (map sint ?ws)"
    using lo hi by (rule sint_sum_list_exact)
  then show ?thesis using i unfolding eq by (simp add: nth_Items_convert)
qed

lemma sint_MaxWeight_convert:
  assumes pos: "\<forall>p \<in> set bucket. 0 < sint (snd p)"
    and bound: "sum_list (map (sint \<circ> snd) bucket) < 2 ^ 31"
  shows "sint (MaxWeight (convert_BucketList bucket)) = sum_list (map (sint \<circ> snd) bucket)"
proof -
  have eq: "map sint (map snd bucket) = map (sint \<circ> snd) bucket" by simp
  have "0 \<le> sum_list (map sint (map snd bucket))"
    using pos by (intro sum_list_nonneg) (auto dest: less_imp_le)
  then have "- (2 ^ 31) \<le> sum_list (map sint (map snd bucket))" by simp
  moreover have "sum_list (map sint (map snd bucket)) < 2 ^ 31" using bound unfolding eq .
  ultimately have "sint (sum_list (map snd bucket)) = sum_list (map sint (map snd bucket))"
    by (rule sint_sum_list_exact)
  then show ?thesis unfolding eq by (simp add: MaxWeight_convert)
qed

text \<open>
  Then a target between the prefix sum before entry \<open>k\<close> and the prefix sum with it
  selects entry \<open>k\<close>.
\<close>

lemma prefix_sum_mono:
  assumes pos: "\<forall>p \<in> set bucket. 0 < (f p :: int)" and jk: "j \<le> k" "k \<le> length bucket"
  shows "sum_list (map f (take j bucket)) \<le> sum_list (map f (take k bucket))"
proof (cases "j = k")
  case True then show ?thesis by simp
next
  case False
  with jk have "j < k" by simp
  from prefix_sum_strict [OF pos this jk(2)] show ?thesis by simp
qed

lemma search_loop_convert:
  assumes pos: "\<forall>p \<in> set bucket. 0 < sint (snd p)"
    and bound: "sum_list (map (sint \<circ> snd) bucket) < 2 ^ 31"
    and k: "k < length bucket"
    and lo: "sum_list (map (sint \<circ> snd) (take k bucket)) \<le> sint target"
    and hi: "sint target < sum_list (map (sint \<circ> snd) (take (Suc k) bucket))"
  shows "search_loop (Items (convert_BucketList bucket)) target 0
           (int (length (Items (convert_BucketList bucket))) - 1)
         = (Inr (int k, int k) :: 'e error + int \<times> int)"
proof -
  let ?items = "Items (convert_BucketList bucket)"
  let ?S = "\<lambda>j. sum_list (map (sint \<circ> snd) (take j bucket))"
  have pos': "\<forall>p \<in> set bucket. 0 < (sint \<circ> snd) p" using pos by simp
  have cw: "sint (CumulativeWeight (?items ! i)) = ?S (Suc i)" if "i < length bucket" for i
    using sint_CumulativeWeight_convert [OF pos bound that] .
  show ?thesis
  proof (rule search_loop_leftmost)
    fix i j assume "i \<le> j" "j < length ?items"
    then have ij: "i < length bucket" "j < length bucket" "Suc i \<le> Suc j" "Suc j \<le> length bucket"
      by (simp_all add: length_Items_convert)
    have "?S (Suc i) \<le> ?S (Suc j)"
      using pos' ij(3,4) by (rule prefix_sum_mono)
    then show "sint (CumulativeWeight (?items ! i)) \<le> sint (CumulativeWeight (?items ! j))"
      using cw [OF ij(1)] cw [OF ij(2)] by linarith
  next
    show "sint target < sint (CumulativeWeight (?items ! k))"
      using hi cw [OF k] by linarith
  next
    fix j assume "j < k"
    then have jk: "j < length bucket" "Suc j \<le> k" "k \<le> length bucket" using k by simp_all
    have "?S (Suc j) \<le> ?S k"
      using pos' jk(2,3) by (rule prefix_sum_mono)
    then show "sint (CumulativeWeight (?items ! j)) \<le> sint target"
      using cw [OF jk(1)] lo by linarith
  qed (use k in \<open>simp_all add: length_Items_convert\<close>)
qed

lemma GetRandom_convert:
  assumes pos: "\<forall>p \<in> set bucket. 0 < sint (snd p)"
    and bound: "sum_list (map (sint \<circ> snd) bucket) < 2 ^ 31"
    and k: "k < length bucket"
    and lo: "sum_list (map (sint \<circ> snd) (take k bucket)) \<le> sint target"
    and hi: "sint target < sum_list (map (sint \<circ> snd) (take (Suc k) bucket))"
    and drawn: "r (MaxWeight (convert_BucketList bucket)) = Inr target"
  shows "GetRandom (convert_BucketList bucket) r = (Inr (fst (bucket ! k)) :: 'e error + 'v)"
proof -
  have "search_loop (Items (convert_BucketList bucket)) target 0
           (int (length (Items (convert_BucketList bucket))) - 1)
         = (Inr (int k, int k) :: 'e error + int \<times> int)"
    using pos bound k lo hi by (rule search_loop_convert)
  then show ?thesis
    using drawn k
    by (simp add: GetRandom_def array_get_def length_Items_convert nth_Items_convert)
qed

text \<open>And only such a target selects entry \<open>i\<close>.\<close>

lemma selected_iff:
  assumes pos: "\<forall>p \<in> set bucket. 0 < sint (snd p)"
    and bound: "sum_list (map (sint \<circ> snd) bucket) < 2 ^ 31"
    and i: "i < length bucket"
    and t: "0 \<le> t" "t < sum_list (map (sint \<circ> snd) bucket)"
  shows "search_loop (Items (convert_BucketList bucket)) (word_of_int t) 0
           (int (length (Items (convert_BucketList bucket))) - 1)
         = (Inr (int i, int i) :: 'e error + int \<times> int)
     \<longleftrightarrow> sum_list (map (sint \<circ> snd) (take i bucket)) \<le> t
          \<and> t < sum_list (map (sint \<circ> snd) (take (Suc i) bucket))"
proof -
  let ?S = "\<lambda>j. sum_list (map (sint \<circ> snd) (take j bucket))"
  let ?n = "length bucket"
  let ?search = "search_loop (Items (convert_BucketList bucket)) (word_of_int t) 0
           (int (length (Items (convert_BucketList bucket))) - 1) :: 'e error + int \<times> int"
  have pos': "\<forall>p \<in> set bucket. 0 < (sint \<circ> snd) p" using pos by simp
  have st: "sint (word_of_int t :: int32) = t"
    using t bound by (simp add: sint_sbintrunc' signed_take_bit_int_eq_self)
  have sel: "?search = Inr (int k, int k)" if "k < ?n" "?S k \<le> t" "t < ?S (Suc k)" for k
    using pos bound that(1) by (rule search_loop_convert) (simp_all add: st that)
  show ?thesis
  proof
    assume found: "?search = Inr (int i, int i)"
    define k where "k = (LEAST j. t < ?S (Suc j))"
    have last: "t < ?S (Suc (?n - 1))" using t i by simp
    have hi: "t < ?S (Suc k)" unfolding k_def using last by (rule LeastI)
    have "k \<le> ?n - 1" unfolding k_def using last by (rule Least_le)
    then have kn: "k < ?n" using i by simp
    have lo: "?S k \<le> t"
    proof (cases k)
      case 0
      then show ?thesis using t by simp
    next
      case (Suc j)
      then have "j < k" by simp
      then have "\<not> t < ?S (Suc j)" unfolding k_def by (rule not_less_Least)
      then show ?thesis using Suc by simp
    qed
    have "?search = Inr (int k, int k)" using kn lo hi by (rule sel)
    with found have "k = i" by simp
    with lo hi show "?S i \<le> t \<and> t < ?S (Suc i)" by simp
  next
    assume "?S i \<le> t \<and> t < ?S (Suc i)"
    then show "?search = Inr (int i, int i)" using sel [OF i] by simp
  qed
qed

section \<open>Termination of the search\<close>

text \<open>
  C10. For every \<^verbatim>\<open>Items\<close> array of length at least 1 and every target, the loop of
  \<^verbatim>\<open>GetRandom\<close> terminates: every run of the body makes \<open>right - left\<close> strictly
  smaller (and keeps \<open>left \<le> right\<close>), and the loop, started as \<^verbatim>\<open>GetRandom\<close> starts
  it, exits with \<open>left = right\<close>.
\<close>

theorem C10_search_loop_terminates:
  assumes "1 \<le> length items"
  shows "(\<forall>left right l' r'. left < right \<and>
            search_step items target left right = (Inr (l', r') :: 'e error + int \<times> int)
            \<longrightarrow> l' \<le> r' \<and> r' - l' < right - left)
       \<and> (\<exists>k. search_loop items target 0 (int (length items) - 1)
                 = (Inr (k, k) :: 'e error + int \<times> int))"
proof
  show "\<forall>left right l' r'. left < right \<and>
            search_step items target left right = (Inr (l', r') :: 'e error + int \<times> int)
            \<longrightarrow> l' \<le> r' \<and> r' - l' < right - left"
    using search_step_width [where items = items and target = target] by blast
next
  have "\<exists>k. 0 \<le> k \<and> k \<le> int (length items) - 1 \<and>
     search_loop items target 0 (int (length items) - 1) = (Inr (k, k) :: 'e error + int \<times> int)"
    using assms by (intro search_loop_exits) auto
  then show "\<exists>k. search_loop items target 0 (int (length items) - 1)
                 = (Inr (k, k) :: 'e error + int \<times> int)"
    by blast
qed

theorem C10_search_loop_terminates_witness:
  "1 \<le> length [\<lparr>CumulativeWeight = 3, Value = ''A''\<rparr>, \<lparr>CumulativeWeight = 8, Value = ''B''\<rparr>]
   \<and> search_step [\<lparr>CumulativeWeight = 3, Value = ''A''\<rparr>, \<lparr>CumulativeWeight = 8, Value = ''B''\<rparr>] 5 0 1
       = (Inr (1, 1) :: unit error + int \<times> int)
   \<and> search_loop [\<lparr>CumulativeWeight = 3, Value = ''A''\<rparr>, \<lparr>CumulativeWeight = 8, Value = ''B''\<rparr>] 5 0 1
       = (Inr (1, 1) :: unit error + int \<times> int)"
  using C10_search_loop_terminates [of "[\<lparr>CumulativeWeight = 3, Value = ''A''\<rparr>, \<lparr>CumulativeWeight = 8, Value = ''B''\<rparr>]" 5]
  by (simp add: search_loop.simps search_step_def array_get_def signed_divide_int_def)

section \<open>Correctness of the draw\<close>

text \<open>
  C1. Let the \<^verbatim>\<open>Items\<close> array be non-empty, with strictly increasing cumulative
  weights, the last of which is \<^verbatim>\<open>MaxWeight\<close>, and let the random source return a
  target in \<open>[0, MaxWeight)\<close>. Then the binary search of \<^verbatim>\<open>GetRandom\<close> ends at an
  index \<open>k\<close> inside the array, the entry at \<open>k\<close> is the leftmost one whose cumulative
  weight is strictly greater than the target (what \<^const>\<open>find\<close> returns), and
  \<^verbatim>\<open>GetRandom\<close> returns the value of that entry.
\<close>

theorem C1_leftmost_greater:
  assumes nonempty: "Items data \<noteq> []"
    and increasing: "sorted_wrt (\<lambda>a b. sint (CumulativeWeight a) < sint (CumulativeWeight b)) (Items data)"
    and total: "CumulativeWeight (last (Items data)) = MaxWeight data"
    and drawn: "r (MaxWeight data) = Inr target"
    and range: "0 \<le> sint target" "sint target < sint (MaxWeight data)"
  shows "\<exists>k < length (Items data).
      find (\<lambda>it. sint target < sint (CumulativeWeight it)) (Items data) = Some (Items data ! k)
      \<and> search_loop (Items data) target 0 (int (length (Items data)) - 1)
          = (Inr (int k, int k) :: 'e error + int \<times> int)
      \<and> GetRandom data r = (Inr (Value (Items data ! k)) :: 'e error + 'v)"
proof -
  let ?items = "Items data"
  let ?n = "length ?items"
  let ?P = "\<lambda>i. sint target < sint (CumulativeWeight (?items ! i))"
  have mono: "sint (CumulativeWeight (?items ! i)) \<le> sint (CumulativeWeight (?items ! j))"
    if "i \<le> j" "j < ?n" for i j
  proof (cases "i = j")
    case True then show ?thesis by simp
  next
    case False
    with that have "i < j" by simp
    with increasing that show ?thesis
      by (auto simp: sorted_wrt_iff_nth_less dest: less_imp_le)
  qed
  have "?P (?n - 1)"
    using nonempty total range by (simp add: last_conv_nth)
  define k where "k = (LEAST i. ?P i)"
  have Pk: "?P k" unfolding k_def using \<open>?P (?n - 1)\<close> by (rule LeastI)
  have "k \<le> ?n - 1" unfolding k_def using \<open>?P (?n - 1)\<close> by (rule Least_le)
  then have kn: "k < ?n" using nonempty by (cases ?items) auto
  have least: "\<not> ?P j" if "j < k" for j
    using that not_less_Least unfolding k_def by blast
  have sl: "search_loop ?items target 0 (int ?n - 1) = (Inr (int k, int k) :: 'e error + int \<times> int)"
  proof (rule search_loop_leftmost)
    show "sint target < sint (CumulativeWeight (?items ! k))" by (rule Pk)
    show "sint (CumulativeWeight (?items ! j)) \<le> sint target" if "j < k" for j
      using least [OF that] by simp
  qed (use mono kn in auto)
  have "find (\<lambda>it. sint target < sint (CumulativeWeight it)) ?items = Some (?items ! k)"
    unfolding find_Some_iff using kn Pk least by blast
  moreover have "GetRandom data r = (Inr (Value (?items ! k)) :: 'e error + 'v)"
    using sl drawn kn by (simp add: GetRandom_def array_get_def)
  ultimately show ?thesis using kn sl by blast
qed

theorem C1_leftmost_greater_witness:
  "Items \<lparr>MaxWeight = 10, Items = [\<lparr>CumulativeWeight = 3, Value = ''A''\<rparr>,
        \<lparr>CumulativeWeight = 8, Value = ''B''\<rparr>, \<lparr>CumulativeWeight = 10, Value = ''C''\<rparr>]\<rparr> \<noteq> []
   \<and> sorted_wrt (\<lambda>a b. sint (CumulativeWeight a) < sint (CumulativeWeight b))
        [\<lparr>CumulativeWeight = 3, Value = ''A''\<rparr>,
         \<lparr>CumulativeWeight = 8, Value = ''B''\<rparr>, \<lparr>CumulativeWeight = 10, Value = ''C''\<rparr>]
   \<and> (0 :: int) \<le> sint (3 :: int32) \<and> sint (3 :: int32) < sint (10 :: int32)
   \<and> find (\<lambda>it. sint (3 :: int32) < sint (CumulativeWeight it))
        [\<lparr>CumulativeWeight = 3, Value = ''A''\<rparr>,
         \<lparr>CumulativeWeight = 8, Value = ''B''\<rparr>, \<lparr>CumulativeWeight = 10, Value = ''C''\<rparr>]
       = Some \<lparr>CumulativeWeight = 8, Value = ''B''\<rparr>
   \<and> GetRandom \<lparr>MaxWeight = 10, Items = [\<lparr>CumulativeWeight = 3, Value = ''A''\<rparr>,
        \<lparr>CumulativeWeight = 8, Value = ''B''\<rparr>, \<lparr>CumulativeWeight = 10, Value = ''C''\<rparr>]\<rparr>
        (\<lambda>n. Inr 3) = (Inr ''B'' :: unit error + string)"
  using C1_leftmost_greater [of "\<lparr>MaxWeight = 10, Items = [\<lparr>CumulativeWeight = 3, Value = ''A''\<rparr>,
        \<lparr>CumulativeWeight = 8, Value = ''B''\<rparr>, \<lparr>CumulativeWeight = 10, Value = ''C''\<rparr>]\<rparr>"
        "\<lambda>n. Inr 3" 3]
  by (simp add: GetRandom_def search_loop.simps search_step_def array_get_def
      signed_divide_int_def)

section \<open>Safety of the draw\<close>

text \<open>
  C6. On a structure built from a non-empty table, \<^verbatim>\<open>GetRandom\<close> cannot fail by
  itself: whatever target the random source returns, the search ends at an index
  \<open>k\<close> of the array without any read out of range (a read out of range would make the
  result \<^const>\<open>IndexOutOfRange\<close>) and the value at \<open>k\<close> is returned; and when the random
  source fails, that failure is the result. The weights play no part in this.
\<close>

theorem C6_draw_cannot_fail:
  assumes "bucket \<noteq> []"
  shows "(\<forall>target. r (MaxWeight (convert_BucketList bucket)) = Inr target \<longrightarrow>
            (\<exists>k < length (Items (convert_BucketList bucket)).
               search_loop (Items (convert_BucketList bucket)) target 0
                   (int (length (Items (convert_BucketList bucket))) - 1)
                 = (Inr (int k, int k) :: 'e error + int \<times> int)
               \<and> GetRandom (convert_BucketList bucket) r
                 = (Inr (Value (Items (convert_BucketList bucket) ! k)) :: 'e error + 'v)))
       \<and> (\<forall>e. r (MaxWeight (convert_BucketList bucket)) = Inl e \<longrightarrow>
            GetRandom (convert_BucketList bucket) r = Inl (RandomFailure e))"
proof (intro conjI allI impI)
  fix target
  assume "r (MaxWeight (convert_BucketList bucket)) = Inr target"
  moreover have "Items (convert_BucketList bucket) \<noteq> []"
    using assms length_Items_convert [of bucket] by auto
  ultimately show "\<exists>k < length (Items (convert_BucketList bucket)).
               search_loop (Items (convert_BucketList bucket)) target 0
                   (int (length (Items (convert_BucketList bucket))) - 1)
                 = (Inr (int k, int k) :: 'e error + int \<times> int)
               \<and> GetRandom (convert_BucketList bucket) r
                 = (Inr (Value (Items (convert_BucketList bucket) ! k)) :: 'e error + 'v)"
    by (intro GetRandom_nonempty) simp_all
next
  fix e
  assume "r (MaxWeight (convert_BucketList bucket)) = Inl e"
  then show "GetRandom (convert_BucketList bucket) r = Inl (RandomFailure e)"
    by (simp add: GetRandom_def)
qed

theorem C6_draw_cannot_fail_witness:
  "[(''A'', 3), (''B'', 5), (''C'', 2)] \<noteq> ([] :: string BucketList)
   \<and> GetRandom (convert_BucketList [(''A'', 3), (''B'', 5), (''C'', 2)]) (\<lambda>n. Inr 7)
       = (Inr ''B'' :: unit error + string)
   \<and> GetRandom (convert_BucketList [(''A'', 3), (''B'', 5), (''C'', 2)]) (\<lambda>n. Inl ())
       = (Inl (RandomFailure ()) :: unit error + string)"
  using C6_draw_cannot_fail [of "[(''A'', 3), (''B'', 5), (''C'', 2)]" "\<lambda>n. Inr 7"]
    C6_draw_cannot_fail [of "[(''A'', 3), (''B'', 5), (''C'', 2)]" "\<lambda>n. Inl ()"]
  by (simp add: convert_BucketList_def GetRandom_def search_loop.simps search_step_def
      array_get_def signed_divide_int_def)

text \<open>
  C9. Construction accepts the empty sequence: the result has \<^verbatim>\<open>MaxWeight\<close> 0 and
  an empty \<^verbatim>\<open>Items\<close> array. On that structure the read of index 0 is out of range,
  and every call of \<^verbatim>\<open>GetRandom\<close> fails: with \<^const>\<open>IndexOutOfRange\<close> as soon as
  the random source returns a target, whatever the target is.
\<close>

theorem C9_empty_table:
  "convert_BucketList [] = \<lparr>MaxWeight = 0, Items = []\<rparr>
   \<and> array_get (Items (convert_BucketList [])) 0 = (Inl IndexOutOfRange :: 'e error + 'v entry)
   \<and> GetRandom (convert_BucketList []) r =
       (case r 0 of Inl e \<Rightarrow> Inl (RandomFailure e) | Inr target \<Rightarrow> (Inl IndexOutOfRange :: 'e error + 'v))"
  by (simp add: convert_BucketList_def GetRandom_def search_loop.simps array_get_def split: sum.split)

section \<open>Construction\<close>

text \<open>
  C3, as the spec states it: construction fails with \<^verbatim>\<open>InvalidInputError\<close> exactly when
  the sequence is empty or some weight is at most 0. The code has no such check: the
  loops of \<^verbatim>\<open>InitializeDescBodyParts\<close> contain no \<^verbatim>\<open>throw\<close>, and the empty sequence and
  a sequence with the weights 0 and -1 are both converted.
\<close>

theorem C3_no_InvalidInputError_counterexample:
  "convert_BucketList ([] :: string BucketList) = \<lparr>MaxWeight = 0, Items = []\<rparr>
   \<and> convert_BucketList [(''A'', 0), (''B'', - 1)]
       = \<lparr>MaxWeight = - 1, Items = [\<lparr>CumulativeWeight = 0, Value = ''A''\<rparr>,
                                      \<lparr>CumulativeWeight = - 1, Value = ''B''\<rparr>]\<rparr>
   \<and> sint (0 :: int32) \<le> 0 \<and> sint (- 1 :: int32) \<le> 0"
  by (simp add: convert_BucketList_def Let_def)

text \<open>
  C3, amended: construction never fails. For every input sequence, the empty one and
  those with weights at most 0 included, it returns a structure with exactly one entry
  per input pair, in input order (no pair is rejected and none is dropped), and with
  \<^verbatim>\<open>MaxWeight\<close> the 32-bit sum of all the weights.
\<close>

theorem C3_construction_never_fails:
  "length (Items (convert_BucketList bucket)) = length bucket
   \<and> map Value (Items (convert_BucketList bucket)) = map fst bucket
   \<and> MaxWeight (convert_BucketList bucket) = sum_list (map snd bucket)"
  by (simp add: length_Items_convert Values_convert MaxWeight_convert)

text \<open>
  C4, as the spec states it: a running sum that leaves the range of the integer type
  makes construction fail with \<^verbatim>\<open>OverflowError\<close>. The code adds with \<^verbatim>\<open>+=\<close> on
  \<^verbatim>\<open>int\<close> outside any \<^verbatim>\<open>checked\<close> context: for the weights \<open>2^31 - 1\<close> and 1 the sum
  wraps to \<open>- 2^31\<close> and the structure is built.
\<close>

theorem C4_sum_wraps_counterexample:
  "convert_BucketList [(''A'', 2147483647), (''B'', 1)]
       = \<lparr>MaxWeight = - 2147483648,
          Items = [\<lparr>CumulativeWeight = 2147483647, Value = ''A''\<rparr>,
                   \<lparr>CumulativeWeight = - 2147483648, Value = ''B''\<rparr>]\<rparr>
   \<and> sint (2147483647 :: int32) + sint (1 :: int32) = 2147483648
   \<and> sint (MaxWeight (convert_BucketList [(''A'', 2147483647), (''B'', 1)])) = - 2147483648"
  by (simp add: convert_BucketList_def)

text \<open>
  C4, amended: the running sum wraps around and construction succeeds. \<^verbatim>\<open>MaxWeight\<close>
  and every cumulative weight are the exact sums of the weights so far, reduced modulo
  \<open>2^32\<close> into the range from \<open>- 2^31\<close> to \<open>2^31 - 1\<close>.
\<close>

theorem C4_sum_wraps:
  "sint (MaxWeight (convert_BucketList bucket))
     = (sum_list (map (sint \<circ> snd) bucket) + 2 ^ 31) mod 2 ^ 32 - 2 ^ 31
   \<and> (\<forall>i < length bucket.
        sint (CumulativeWeight (Items (convert_BucketList bucket) ! i))
          = (sum_list (map (sint \<circ> snd) (take (Suc i) bucket)) + 2 ^ 31) mod 2 ^ 32 - 2 ^ 31)"
proof -
  have eq: "map sint (map snd xs) = map (sint \<circ> snd) xs" for xs :: "'a BucketList" by simp
  show ?thesis
    by (auto simp: MaxWeight_convert nth_Items_convert sint_sum_list_wrap eq simp del: map_map)
qed

theorem C4_sum_wraps_witness:
  "sint (MaxWeight (convert_BucketList [(''A'', 2147483647), (''B'', 1)])) = - 2147483648
   \<and> (1 :: nat) < length [(''A'', 2147483647 :: int32), (''B'', 1)]
   \<and> sint (CumulativeWeight (Items (convert_BucketList [(''A'', 2147483647), (''B'', 1)]) ! 1))
       = - 2147483648"
  using C4_sum_wraps [of "[(''A'', 2147483647), (''B'', 1)]"]
  by (simp add: convert_BucketList_def)

text \<open>
  C5, as the spec states it: for every non-empty input with positive weights the
  cumulative weights are the sums of the weights so far and strictly increasing. With
  the positive weights \<open>2^31 - 1\<close>, \<open>2^31 - 1\<close> and 5 the second sum wraps: the second
  cumulative weight is \<open>-2\<close>, below the first and not the sum \<open>4294967294\<close>.
\<close>

theorem C5_invariant_counterexample:
  "[(''A'', 2147483647 :: int32), (''B'', 2147483647), (''C'', 5)] \<noteq> []
   \<and> 0 < sint (2147483647 :: int32) \<and> 0 < sint (5 :: int32)
   \<and> sint (CumulativeWeight (Items (convert_BucketList
         [(''A'', 2147483647), (''B'', 2147483647), (''C'', 5)]) ! 0)) = 2147483647
   \<and> sint (CumulativeWeight (Items (convert_BucketList
         [(''A'', 2147483647), (''B'', 2147483647), (''C'', 5)]) ! 1)) = - 2
   \<and> sint (2147483647 :: int32) + sint (2147483647 :: int32) = 4294967294"
  by (simp add: convert_BucketList_def Let_def)

text \<open>
  C5, amended: for every non-empty input sequence with all weights positive and the
  sum of all weights at most \<open>2^31 - 1\<close>, the structure has one entry per input pair in
  input order, the \<open>i\<close>-th cumulative weight is the sum of the first \<open>i + 1\<close> weights,
  the cumulative weights are strictly increasing, \<^verbatim>\<open>Items\<close> is non-empty, and the last
  cumulative weight is \<^verbatim>\<open>MaxWeight\<close>, the sum of all weights.
\<close>

theorem C5_invariant:
  assumes nonempty: "bucket \<noteq> []"
    and pos: "\<forall>p \<in> set bucket. 0 < sint (snd p)"
    and bound: "sum_list (map (sint \<circ> snd) bucket) < 2 ^ 31"
  shows "length (Items (convert_BucketList bucket)) = length bucket
    \<and> map Value (Items (convert_BucketList bucket)) = map fst bucket
    \<and> (\<forall>i < length bucket.
          sint (CumulativeWeight (Items (convert_BucketList bucket) ! i))
            = sum_list (map (sint \<circ> snd) (take (Suc i) bucket)))
    \<and> sorted_wrt (\<lambda>a b. sint (CumulativeWeight a) < sint (CumulativeWeight b))
          (Items (convert_BucketList bucket))
    \<and> Items (convert_BucketList bucket) \<noteq> []
    \<and> CumulativeWeight (last (Items (convert_BucketList bucket)))
          = MaxWeight (convert_BucketList bucket)
    \<and> sint (MaxWeight (convert_BucketList bucket)) = sum_list (map (sint \<circ> snd) bucket)"
proof -
  let ?items = "Items (convert_BucketList bucket)"
  have len: "length ?items = length bucket" by (rule length_Items_convert)
  have pos': "\<forall>p \<in> set bucket. 0 < (sint \<circ> snd) p" using pos by simp
  have cw: "sint (CumulativeWeight (?items ! i)) = sum_list (map (sint \<circ> snd) (take (Suc i) bucket))"
    if "i < length bucket" for i
    using pos bound that by (rule sint_CumulativeWeight_convert)
  have sorted: "sorted_wrt (\<lambda>a b. sint (CumulativeWeight a) < sint (CumulativeWeight b)) ?items"
    unfolding sorted_wrt_iff_nth_less
  proof (intro allI impI)
    fix i j assume "i < j" "j < length ?items"
    then have ij: "i < length bucket" "j < length bucket" "Suc i < Suc j" "Suc j \<le> length bucket"
      using len by simp_all
    have "sum_list (map (sint \<circ> snd) (take (Suc i) bucket))
        < sum_list (map (sint \<circ> snd) (take (Suc j) bucket))"
      using pos' ij(3,4) by (rule prefix_sum_strict)
    then show "sint (CumulativeWeight (?items ! i)) < sint (CumulativeWeight (?items ! j))"
      using cw [OF ij(1)] cw [OF ij(2)] by linarith
  qed
  have ne: "?items \<noteq> []" using nonempty len by auto
  have "length bucket - 1 < length bucket" using nonempty by simp
  then have "?items ! (length bucket - 1)
      = \<lparr>CumulativeWeight = sum_list (map snd (take (Suc (length bucket - 1)) bucket)),
         Value = fst (bucket ! (length bucket - 1))\<rparr>"
    by (rule nth_Items_convert)
  then have last: "CumulativeWeight (last ?items) = MaxWeight (convert_BucketList bucket)"
    using ne nonempty by (simp add: last_conv_nth len MaxWeight_convert)
  show ?thesis
    using len Values_convert [of bucket] cw sorted ne last
      sint_MaxWeight_convert [OF pos bound]
    by blast
qed

theorem C5_invariant_witness:
  "[(''A'', 3 :: int32), (''B'', 5), (''C'', 2)] \<noteq> []
   \<and> 0 < sint (3 :: int32) \<and> 0 < sint (5 :: int32) \<and> 0 < sint (2 :: int32)
   \<and> sum_list (map (sint \<circ> snd) [(''A'', 3 :: int32), (''B'', 5), (''C'', 2)]) < 2 ^ 31
   \<and> (1 :: nat) < length [(''A'', 3 :: int32), (''B'', 5), (''C'', 2)]
   \<and> sint (CumulativeWeight (Items (convert_BucketList [(''A'', 3), (''B'', 5), (''C'', 2)]) ! 1)) = 8
   \<and> map Value (Items (convert_BucketList [(''A'', 3), (''B'', 5), (''C'', 2)])) = [''A'', ''B'', ''C'']
   \<and> sint (MaxWeight (convert_BucketList [(''A'', 3), (''B'', 5), (''C'', 2)])) = 10"
  using C5_invariant [of "[(''A'', 3), (''B'', 5), (''C'', 2)]"]
  by (simp add: convert_BucketList_def)

section \<open>Which value a target selects\<close>

text \<open>
  C7, as the spec states it: for every non-empty table with positive weights, a random
  source returning 0 makes the draw return the first value. With the positive weights
  \<open>2^31 - 1\<close>, \<open>2^31 - 1\<close> and 5 the cumulative weights are \<open>2^31 - 1\<close>, \<open>-2\<close> and 3,
  \<^verbatim>\<open>MaxWeight\<close> is 3, and target 0 returns the third value.
\<close>

theorem C7_first_and_last_counterexample:
  "[(''A'', 2147483647 :: int32), (''B'', 2147483647), (''C'', 5)] \<noteq> []
   \<and> 0 < sint (2147483647 :: int32) \<and> 0 < sint (5 :: int32)
   \<and> MaxWeight (convert_BucketList [(''A'', 2147483647), (''B'', 2147483647), (''C'', 5)]) = 3
   \<and> GetRandom (convert_BucketList [(''A'', 2147483647), (''B'', 2147483647), (''C'', 5)])
        (\<lambda>n. Inr 0) = (Inr ''C'' :: unit error + string)
   \<and> ''C'' \<noteq> ''A''"
  by (simp add: convert_BucketList_def Let_def GetRandom_def search_loop.simps search_step_def
      array_get_def signed_divide_int_def)

text \<open>
  C7, amended: for every non-empty table with positive weights whose sum is at most
  \<open>2^31 - 1\<close>, the draw with a random source returning 0 returns the first value, and
  the draw with a random source returning \<^verbatim>\<open>MaxWeight - 1\<close> returns the last value.
\<close>

theorem C7_first_and_last:
  assumes nonempty: "bucket \<noteq> []"
    and pos: "\<forall>p \<in> set bucket. 0 < sint (snd p)"
    and bound: "sum_list (map (sint \<circ> snd) bucket) < 2 ^ 31"
  shows "(r (MaxWeight (convert_BucketList bucket)) = Inr 0 \<longrightarrow>
            GetRandom (convert_BucketList bucket) r = (Inr (fst (hd bucket)) :: 'e error + 'v))
       \<and> (r (MaxWeight (convert_BucketList bucket)) = Inr (MaxWeight (convert_BucketList bucket) - 1) \<longrightarrow>
            GetRandom (convert_BucketList bucket) r = (Inr (fst (last bucket)) :: 'e error + 'v))"
proof (intro conjI impI)
  assume drawn: "r (MaxWeight (convert_BucketList bucket)) = Inr 0"
  have 0: "0 < length bucket" using nonempty by simp
  have "0 < sint (snd (bucket ! 0))" using pos 0 nth_mem by blast
  then have "sint (0 :: int32) < sum_list (map (sint \<circ> snd) (take (Suc 0) bucket))"
    using 0 by (simp add: take_Suc_conv_app_nth)
  moreover have "sum_list (map (sint \<circ> snd) (take 0 bucket)) \<le> sint (0 :: int32)" by simp
  ultimately have "GetRandom (convert_BucketList bucket) r = (Inr (fst (bucket ! 0)) :: 'e error + 'v)"
    using pos bound 0 drawn by (intro GetRandom_convert) 
  then show "GetRandom (convert_BucketList bucket) r = (Inr (fst (hd bucket)) :: 'e error + 'v)"
    using nonempty by (simp add: hd_conv_nth)
next
  let ?total = "sum_list (map (sint \<circ> snd) bucket)"
  let ?n = "length bucket"
  assume drawn: "r (MaxWeight (convert_BucketList bucket)) = Inr (MaxWeight (convert_BucketList bucket) - 1)"
  have n: "?n - 1 < ?n" "Suc (?n - 1) = ?n" using nonempty by simp_all
  have pos': "\<forall>p \<in> set bucket. 0 < (sint \<circ> snd) p" using pos by simp
  have mw: "sint (MaxWeight (convert_BucketList bucket)) = ?total"
    using pos bound by (rule sint_MaxWeight_convert)
  have "0 < ?total" using nonempty pos' by (rule sum_list_pos_int)
  then have t: "sint (MaxWeight (convert_BucketList bucket) - 1) = ?total - 1"
    using mw bound by (simp add: sint_word_ariths signed_take_bit_int_eq_self)
  have "sum_list (map (sint \<circ> snd) (take (?n - 1) bucket)) < sum_list (map (sint \<circ> snd) (take ?n bucket))"
    using pos' n(1) by (intro prefix_sum_strict) simp_all
  then have lo: "sum_list (map (sint \<circ> snd) (take (?n - 1) bucket))
      \<le> sint (MaxWeight (convert_BucketList bucket) - 1)"
    unfolding t by simp
  have hi: "sint (MaxWeight (convert_BucketList bucket) - 1)
      < sum_list (map (sint \<circ> snd) (take (Suc (?n - 1)) bucket))"
    unfolding t n(2) by simp
  have "GetRandom (convert_BucketList bucket) r = (Inr (fst (bucket ! (?n - 1))) :: 'e error + 'v)"
    using pos bound n(1) lo hi drawn by (rule GetRandom_convert)
  then show "GetRandom (convert_BucketList bucket) r = (Inr (fst (last bucket)) :: 'e error + 'v)"
    using nonempty by (simp add: last_conv_nth)
qed

theorem C7_first_and_last_witness:
  "[(''A'', 3 :: int32), (''B'', 5), (''C'', 2)] \<noteq> []
   \<and> 0 < sint (3 :: int32) \<and> 0 < sint (5 :: int32) \<and> 0 < sint (2 :: int32)
   \<and> sum_list (map (sint \<circ> snd) [(''A'', 3 :: int32), (''B'', 5), (''C'', 2)]) < 2 ^ 31
   \<and> GetRandom (convert_BucketList [(''A'', 3), (''B'', 5), (''C'', 2)]) (\<lambda>n. Inr 0)
        = (Inr ''A'' :: unit error + string)
   \<and> GetRandom (convert_BucketList [(''A'', 3), (''B'', 5), (''C'', 2)]) (\<lambda>n. Inr (n - 1))
        = (Inr ''C'' :: unit error + string)"
  using C7_first_and_last [of "[(''A'', 3), (''B'', 5), (''C'', 2)]" "\<lambda>n. Inr 0"]
    C7_first_and_last [of "[(''A'', 3), (''B'', 5), (''C'', 2)]" "\<lambda>n. Inr (n - 1)"]
  by (simp add: convert_BucketList_def GetRandom_def search_loop.simps search_step_def
      array_get_def signed_divide_int_def)

text \<open>
  C2, as the spec states it: for every non-empty table with positive weights, the
  number of targets in \<open>[0, MaxWeight)\<close> that select an entry is that entry's weight.
  With the positive weights \<open>2^31 - 1\<close>, \<open>2^31 - 1\<close> and 5, \<^verbatim>\<open>MaxWeight\<close> is 3 and each
  of the targets 0, 1 and 2 selects the third entry: no target selects the first
  entry, and three targets, not five, select the third.
\<close>

theorem C2_selection_counts_counterexample:
  "0 < sint (2147483647 :: int32) \<and> 0 < sint (5 :: int32)
   \<and> sint (MaxWeight (convert_BucketList
         [(''A'', 2147483647), (''B'', 2147483647), (''C'', 5)])) = 3
   \<and> GetRandom (convert_BucketList [(''A'', 2147483647), (''B'', 2147483647), (''C'', 5)])
        (\<lambda>n. Inr 0) = (Inr ''C'' :: unit error + string)
   \<and> GetRandom (convert_BucketList [(''A'', 2147483647), (''B'', 2147483647), (''C'', 5)])
        (\<lambda>n. Inr 1) = (Inr ''C'' :: unit error + string)
   \<and> GetRandom (convert_BucketList [(''A'', 2147483647), (''B'', 2147483647), (''C'', 5)])
        (\<lambda>n. Inr 2) = (Inr ''C'' :: unit error + string)"
  by (simp add: convert_BucketList_def Let_def GetRandom_def search_loop.simps search_step_def
      array_get_def signed_divide_int_def)

text \<open>
  C2, amended: for every table with positive weights whose sum is at most \<open>2^31 - 1\<close>
  and every entry \<open>i\<close> of it, the number of targets in \<open>[0, MaxWeight)\<close> at which the
  search ends at \<open>i\<close> is exactly the weight of \<open>i\<close>; a target equal to the cumulative
  weight of entry \<open>i\<close> selects the next entry, \<open>i + 1\<close>; and for the weights 3, 5, 2
  over the values A, B, C the targets 2, 3, 7, 8, 9 give A, B, B, C, C.
\<close>

theorem C2_selection_counts:
  assumes pos: "\<forall>p \<in> set bucket. 0 < sint (snd p)"
    and bound: "sum_list (map (sint \<circ> snd) bucket) < 2 ^ 31"
    and i: "i < length bucket"
  shows "card {t. 0 \<le> t \<and> t < sint (MaxWeight (convert_BucketList bucket))
              \<and> search_loop (Items (convert_BucketList bucket)) (word_of_int t) 0
                    (int (length (Items (convert_BucketList bucket))) - 1)
                  = (Inr (int i, int i) :: 'e error + int \<times> int)}
           = nat (sint (snd (bucket ! i)))
       \<and> (Suc i < length bucket \<longrightarrow>
            search_loop (Items (convert_BucketList bucket))
                (CumulativeWeight (Items (convert_BucketList bucket) ! i)) 0
                (int (length (Items (convert_BucketList bucket))) - 1)
              = (Inr (int (Suc i), int (Suc i)) :: 'e error + int \<times> int))
       \<and> map (\<lambda>target. GetRandom (convert_BucketList [(''A'', 3), (''B'', 5), (''C'', 2)])
                 (\<lambda>n. Inr target)) [2, 3, 7, 8, 9]
           = [Inr ''A'', Inr ''B'', Inr ''B'', Inr ''C'', Inr ''C'' :: unit error + string]"
proof (intro conjI impI)
  let ?d = "convert_BucketList bucket"
  let ?S = "\<lambda>j. sum_list (map (sint \<circ> snd) (take j bucket))"
  let ?total = "sum_list (map (sint \<circ> snd) bucket)"
  let ?sel = "\<lambda>t. search_loop (Items ?d) (word_of_int t) 0 (int (length (Items ?d)) - 1)
                  = (Inr (int i, int i) :: 'e error + int \<times> int)"
  have pos': "\<forall>p \<in> set bucket. 0 < (sint \<circ> snd) p" using pos by simp
  have mw: "sint (MaxWeight ?d) = ?total" using pos bound by (rule sint_MaxWeight_convert)
  have S0: "0 \<le> ?S i"
    using pos by (intro sum_list_nonneg) (auto dest!: in_set_takeD dest: less_imp_le)
  have "?S (Suc i) \<le> ?S (length bucket)"
    using pos' i by (intro prefix_sum_mono) simp_all
  then have Sn: "?S (Suc i) \<le> ?total" by simp
  have step: "?S (Suc i) = ?S i + sint (snd (bucket ! i))"
    using i by (simp add: take_Suc_conv_app_nth)
  have "{t. 0 \<le> t \<and> t < sint (MaxWeight ?d) \<and> ?sel t} = {?S i ..< ?S (Suc i)}"
  proof (intro set_eqI iffI)
    fix t assume "t \<in> {t. 0 \<le> t \<and> t < sint (MaxWeight ?d) \<and> ?sel t}"
    then have t: "0 \<le> t" "t < ?total" and sel: "?sel t" using mw by simp_all
    from selected_iff [OF pos bound i t, where ?'e = 'e] sel
    show "t \<in> {?S i ..< ?S (Suc i)}" by simp
  next
    fix t assume "t \<in> {?S i ..< ?S (Suc i)}"
    then have r: "?S i \<le> t" "t < ?S (Suc i)" by simp_all
    then have t: "0 \<le> t" "t < ?total" using S0 Sn by linarith+
    from selected_iff [OF pos bound i t, where ?'e = 'e] r have "?sel t" by simp
    then show "t \<in> {t. 0 \<le> t \<and> t < sint (MaxWeight ?d) \<and> ?sel t}"
      using t mw by simp
  qed
  then show "card {t. 0 \<le> t \<and> t < sint (MaxWeight ?d) \<and> ?sel t} = nat (sint (snd (bucket ! i)))"
    using step by simp
next
  let ?d = "convert_BucketList bucket"
  assume si: "Suc i < length bucket"
  have pos': "\<forall>p \<in> set bucket. 0 < (sint \<circ> snd) p" using pos by simp
  have cw: "sint (CumulativeWeight (Items ?d ! i)) = sum_list (map (sint \<circ> snd) (take (Suc i) bucket))"
    using pos bound i by (rule sint_CumulativeWeight_convert)
  have "sum_list (map (sint \<circ> snd) (take (Suc i) bucket))
      < sum_list (map (sint \<circ> snd) (take (Suc (Suc i)) bucket))"
    using pos' si by (intro prefix_sum_strict) simp_all
  then show "search_loop (Items ?d) (CumulativeWeight (Items ?d ! i)) 0
                (int (length (Items ?d)) - 1)
              = (Inr (int (Suc i), int (Suc i)) :: 'e error + int \<times> int)"
    using pos bound si by (intro search_loop_convert) (simp_all add: cw)
next
  show "map (\<lambda>target. GetRandom (convert_BucketList [(''A'', 3), (''B'', 5), (''C'', 2)])
                 (\<lambda>n. Inr target)) [2, 3, 7, 8, 9]
           = [Inr ''A'', Inr ''B'', Inr ''B'', Inr ''C'', Inr ''C'' :: unit error + string]"
    by (simp add: convert_BucketList_def Let_def GetRandom_def search_loop.simps search_step_def
      array_get_def signed_divide_int_def)
qed

theorem C2_selection_counts_witness:
  "0 < sint (3 :: int32) \<and> 0 < sint (5 :: int32) \<and> 0 < sint (2 :: int32)
   \<and> sum_list (map (sint \<circ> snd) [(''A'', 3 :: int32), (''B'', 5), (''C'', 2)]) < 2 ^ 31
   \<and> (1 :: nat) < length [(''A'', 3 :: int32), (''B'', 5), (''C'', 2)]
   \<and> Suc 1 < length [(''A'', 3 :: int32), (''B'', 5), (''C'', 2)]
   \<and> card {t. 0 \<le> t \<and> t < sint (MaxWeight (convert_BucketList [(''A'', 3), (''B'', 5), (''C'', 2)]))
              \<and> search_loop (Items (convert_BucketList [(''A'', 3), (''B'', 5), (''C'', 2)]))
                    (word_of_int t) 0
                    (int (length (Items (convert_BucketList [(''A'', 3), (''B'', 5), (''C'', 2)]))) - 1)
                  = (Inr (int 1, int 1) :: unit error + int \<times> int)}
       = 5
   \<and> search_loop (Items (convert_BucketList [(''A'', 3), (''B'', 5), (''C'', 2)])) 8 0 2
       = (Inr (2, 2) :: unit error + int \<times> int)"
proof -
  have h: "\<forall>p \<in> set [(''A'', 3 :: int32), (''B'', 5), (''C'', 2)]. 0 < sint (snd p)"
    "sum_list (map (sint \<circ> snd) [(''A'', 3 :: int32), (''B'', 5), (''C'', 2)]) < 2 ^ 31"
    "(1 :: nat) < length [(''A'', 3 :: int32), (''B'', 5), (''C'', 2)]"
    by simp_all
  have s: "search_loop (Items (convert_BucketList [(''A'', 3), (''B'', 5), (''C'', 2)])) 8 0 2
       = (Inr (2, 2) :: unit error + int \<times> int)"
    by (simp add: convert_BucketList_def Let_def search_loop.simps search_step_def
      array_get_def signed_divide_int_def)
  from C2_selection_counts [OF h, where ?'e = unit]
  have "card {t. 0 \<le> t \<and> t < sint (MaxWeight (convert_BucketList [(''A'', 3), (''B'', 5), (''C'', 2)]))
              \<and> search_loop (Items (convert_BucketList [(''A'', 3), (''B'', 5), (''C'', 2)]))
                    (word_of_int t) 0
                    (int (length (Items (convert_BucketList [(''A'', 3), (''B'', 5), (''C'', 2)]))) - 1)
                  = (Inr (int 1, int 1) :: unit error + int \<times> int)}
       = nat (sint (snd ([(''A'', 3 :: int32), (''B'', 5), (''C'', 2)] ! 1)))"
    by (rule conjunct1)
  then show ?thesis using h s by simp
qed

section \<open>The registry\<close>

text \<open>
  The outer loop stores, for every key of \<^verbatim>\<open>tempDict\<close>, the converted list of the last
  entry with that key; a C# dictionary enumerates each key once.
\<close>

lemma convert_all_eq:
  "convert_all tempDict result key =
     (case map_of (rev tempDict) key of
        None \<Rightarrow> result key
      | Some bucket \<Rightarrow> Some (convert_BucketList bucket))"
proof (induction tempDict arbitrary: result)
  case Nil
  show ?case by simp
next
  case (Cons p rest)
  obtain k b where p: "p = (k, b)" by (cases p)
  show ?case
    unfolding p by (simp add: Cons.IH map_add_def split: option.splits)
qed

lemma InitializeDescBodyParts_present:
  assumes "distinct (map fst tempDict)" "(key, bucket) \<in> set tempDict"
  shows "InitializeDescBodyParts tempDict key = Some (convert_BucketList bucket)"
proof -
  have "distinct (map fst (rev tempDict))" using assms(1) by (metis distinct_rev rev_map)
  then have "map_of (rev tempDict) key = Some bucket" using assms(2) by simp
  then show ?thesis by (simp add: InitializeDescBodyParts_def convert_all_eq)
qed

lemma InitializeDescBodyParts_absent:
  assumes "key \<notin> fst ` set tempDict"
  shows "InitializeDescBodyParts tempDict key = None"
proof -
  have "map_of (rev tempDict) key = None" using assms by (simp add: map_of_eq_None_iff)
  then show ?thesis by (simp add: InitializeDescBodyParts_def convert_all_eq)
qed

text \<open>
  C8, as the spec states it: the lookup of a key of the source table returns a sampler
  whose \<^verbatim>\<open>MaxWeight\<close> is the sum of that key's raw weights. For a key with the weights
  \<open>2^31 - 1\<close>, \<open>2^31 - 1\<close> and 5 the lookup succeeds and \<^verbatim>\<open>MaxWeight\<close> is 3, while the
  weights sum to \<open>4294967299\<close>.
\<close>

theorem C8_registry_lookup_counterexample:
  "registry_get (InitializeDescBodyParts
       [(''k'', [(''A'', 2147483647), (''B'', 2147483647), (''C'', 5)])]) ''k''
     = (Inr (convert_BucketList [(''A'', 2147483647), (''B'', 2147483647), (''C'', 5)])
          :: unit error + string data)
   \<and> sint (MaxWeight (convert_BucketList
        [(''A'', 2147483647), (''B'', 2147483647), (''C'', 5)])) = 3
   \<and> sint (2147483647 :: int32) + sint (2147483647 :: int32) + sint (5 :: int32) = 4294967299"
  by (simp add: registry_get_def InitializeDescBodyParts_def convert_BucketList_def Let_def)

text \<open>
  C8, amended: for every key of the source table the lookup succeeds and returns a
  sampler whose \<^verbatim>\<open>MaxWeight\<close> is the sum of that key's raw weights reduced modulo
  \<open>2^32\<close> into the range of a 32-bit \<^verbatim>\<open>int\<close>, hence the sum itself whenever the sum
  is in that range; the lookup of a key that is not in the source table fails with
  \<^verbatim>\<open>UnknownKeyError\<close>.
\<close>

theorem C8_registry_lookup:
  assumes keys: "distinct (map fst tempDict)"
  shows "(\<forall>bucket. (key, bucket) \<in> set tempDict \<longrightarrow>
            (\<exists>sampler. registry_get (InitializeDescBodyParts tempDict) key
                 = (Inr sampler :: 'e error + 'v data)
               \<and> sint (MaxWeight sampler)
                   = (sum_list (map (sint \<circ> snd) bucket) + 2 ^ 31) mod 2 ^ 32 - 2 ^ 31
               \<and> (- (2 ^ 31) \<le> sum_list (map (sint \<circ> snd) bucket)
                    \<and> sum_list (map (sint \<circ> snd) bucket) < 2 ^ 31
                  \<longrightarrow> sint (MaxWeight sampler) = sum_list (map (sint \<circ> snd) bucket))))
       \<and> (key \<notin> fst ` set tempDict \<longrightarrow>
            registry_get (InitializeDescBodyParts tempDict) key
              = (Inl UnknownKey :: 'e error + 'v data))"
proof (intro conjI allI impI)
  fix bucket :: "'v BucketList"
  assume "(key, bucket) \<in> set tempDict"
  with keys have "InitializeDescBodyParts tempDict key = Some (convert_BucketList bucket)"
    by (rule InitializeDescBodyParts_present)
  then have get: "registry_get (InitializeDescBodyParts tempDict) key
      = (Inr (convert_BucketList bucket) :: 'e error + 'v data)"
    by (simp add: registry_get_def)
  have eq: "map sint (map snd bucket) = map (sint \<circ> snd) bucket" by simp
  have wrap: "sint (MaxWeight (convert_BucketList bucket))
      = (sum_list (map (sint \<circ> snd) bucket) + 2 ^ 31) mod 2 ^ 32 - 2 ^ 31"
    using sint_sum_list_wrap [of "map snd bucket"] unfolding eq
    by (simp add: MaxWeight_convert)
  have exact: "sint (MaxWeight (convert_BucketList bucket)) = sum_list (map (sint \<circ> snd) bucket)"
    if "- (2 ^ 31) \<le> sum_list (map (sint \<circ> snd) bucket) \<and> sum_list (map (sint \<circ> snd) bucket) < 2 ^ 31"
    using sint_sum_list_exact [of "map snd bucket"] that unfolding eq
    by (simp add: MaxWeight_convert)
  show "\<exists>sampler. registry_get (InitializeDescBodyParts tempDict) key
                 = (Inr sampler :: 'e error + 'v data)
               \<and> sint (MaxWeight sampler)
                   = (sum_list (map (sint \<circ> snd) bucket) + 2 ^ 31) mod 2 ^ 32 - 2 ^ 31
               \<and> (- (2 ^ 31) \<le> sum_list (map (sint \<circ> snd) bucket)
                    \<and> sum_list (map (sint \<circ> snd) bucket) < 2 ^ 31
                  \<longrightarrow> sint (MaxWeight sampler) = sum_list (map (sint \<circ> snd) bucket))"
    using get wrap exact by blast
next
  assume "key \<notin> fst ` set tempDict"
  then have "InitializeDescBodyParts tempDict key = None"
    by (rule InitializeDescBodyParts_absent)
  then show "registry_get (InitializeDescBodyParts tempDict) key
              = (Inl UnknownKey :: 'e error + 'v data)"
    by (simp add: registry_get_def)
qed

theorem C8_registry_lookup_witness:
  "distinct (map fst [(''head'', [(''A'', 3 :: int32), (''B'', 5)]), (''neck'', [(''C'', 2)])])
   \<and> (''head'', [(''A'', 3), (''B'', 5)])
        \<in> set [(''head'', [(''A'', 3 :: int32), (''B'', 5)]), (''neck'', [(''C'', 2)])]
   \<and> ''foot'' \<notin> fst ` set [(''head'', [(''A'', 3 :: int32), (''B'', 5)]), (''neck'', [(''C'', 2)])]
   \<and> registry_get (InitializeDescBodyParts
        [(''head'', [(''A'', 3), (''B'', 5)]), (''neck'', [(''C'', 2)])]) ''head''
       = (Inr \<lparr>MaxWeight = 8, Items = [\<lparr>CumulativeWeight = 3, Value = ''A''\<rparr>,
                                        \<lparr>CumulativeWeight = 8, Value = ''B''\<rparr>]\<rparr>
            :: unit error + string data)
   \<and> registry_get (InitializeDescBodyParts
        [(''head'', [(''A'', 3), (''B'', 5)]), (''neck'', [(''C'', 2)])]) ''foot''
       = (Inl UnknownKey :: unit error + string data)"
  using C8_registry_lookup [of "[(''head'', [(''A'', 3), (''B'', 5)]), (''neck'', [(''C'', 2)])]" "''head''"]
    C8_registry_lookup [of "[(''head'', [(''A'', 3), (''B'', 5)]), (''neck'', [(''C'', 2)])]" "''foot''"]
  by (simp add: registry_get_def InitializeDescBodyParts_def convert_BucketList_def Let_def)

end
